theory Spec2Isabelle
  imports Complex_Main
begin

section \<open>CBRA case tracking: the data model of \<open>cbraservices/models.py\<close>\<close>

text \<open>
  The models are Django model classes. Each class becomes a record; a nullable column
  (\<open>null=True\<close>) becomes an \<open>option\<close>, \<open>None\<close> being Python's \<open>None\<close>. A foreign key is
  the integer key of the row it points to, except \<open>CaseFile.case\<close>, whose target object
  the code reads, and which is therefore the \<open>Case\<close> itself.
\<close>

subsection \<open>Dates and the clock\<close>

text \<open>
  \<open>datetime.date(y, m, d)\<close> and \<open>datetime.datetime(y, m, d, H, M, S, us)\<close>.
  \<open>datetime.now()\<close> reads the clock: in the model the reading is an explicit argument.
\<close>

datatype date = Date int int int

datatype datetime = Datetime int int int int int int int

fun datetime_date :: "datetime \<Rightarrow> date" where
  "datetime_date (Datetime y m d H M S us) = Date y m d"

text \<open>
  Python truth value of a nullable date column: \<open>None\<close> is false, and every
  \<open>datetime.date\<close> object is true.
\<close>

fun truthy_date :: "date option \<Rightarrow> bool" where
  "truthy_date None = False"
| "truthy_date (Some d) = True"

text \<open>
  Python truth value of a nullable integer column: \<open>None\<close> is false, and so is \<open>0\<close>.
\<close>

fun truthy_int :: "int option \<Rightarrow> bool" where
  "truthy_int None = False"
| "truthy_int (Some i) = (i \<noteq> 0)"

subsection \<open>String formatting\<close>

text \<open>
  \<open>'%s' % x\<close> and \<open>str(x)\<close> for an integer \<open>x\<close> give its decimal numeral, with a leading
  minus sign when negative; for \<open>None\<close> they give \<open>'None'\<close>.
\<close>

definition digit_char :: "nat \<Rightarrow> char" where
  "digit_char d = char_of (48 + d)"

fun str_nat :: "nat \<Rightarrow> string" where
  "str_nat n = (if n < 10 then [digit_char n] else str_nat (n div 10) @ [digit_char (n mod 10)])"

declare str_nat.simps [simp del]

definition str_int :: "int \<Rightarrow> string" where
  "str_int i = (if i < 0 then CHR ''-'' # str_nat (nat (- i)) else str_nat (nat i))"

fun percent_s :: "int option \<Rightarrow> string" where
  "percent_s None = ''None''"
| "percent_s (Some i) = str_int i"

subsection \<open>The abstract base class and \<open>Case\<close>\<close>

text \<open>
  \<open>HistoryModel\<close> carries the audit columns; \<open>id\<close> is the automatic primary key Django
  adds to every concrete model (\<open>None\<close> until the row is saved). It is named \<open>id_pk\<close>
  here because \<open>id\<close> is the identity function of HOL.
\<close>

record HistoryModel =
  id_pk :: "int option"
  created_date :: "date option"
  created_by :: "int option"
  modified_date :: "date option"
  modified_by :: "int option"

record Case = HistoryModel +
  case_hash :: string
  request_date :: date
  requester :: int
  property :: int
  cbrs_unit :: "int option"
  map_number :: "int option"
  cbrs_map_date :: "date option"
  determination :: "int option"
  prohibition_date :: "date option"
  distance :: "real option"
  fws_fo_received_date :: "date option"
  fws_hq_received_date :: "date option"
  final_letter_date :: "date option"
  close_date :: "date option"
  final_letter_recipient :: string
  analyst :: "int option"
  analyst_signoff_date :: "date option"
  qc_reviewer :: "int option"
  qc_reviewer_signoff_date :: "date option"
  fws_reviewer :: "int option"
  fws_reviewer_signoff_date :: "date option"
  priority :: bool
  tags :: "int list"

text \<open>\<open>Case._get_id\<close>: \<open>return '%s' % self.id\<close>.\<close>

definition get_id :: "Case \<Rightarrow> string" where
  "get_id self = percent_s (id_pk self)"

text \<open>\<open>Case._get_status\<close>: the \<open>if\<close>/\<open>elif\<close> chain, in the order of the source.\<close>

definition get_status :: "Case \<Rightarrow> string" where
  "get_status self =
     (if truthy_date (close_date self) \<and> \<not> truthy_date (final_letter_date self)
        then ''Closed with no Final Letter''
      else if truthy_date (close_date self) then ''Final''
      else if truthy_date (fws_reviewer_signoff_date self) then ''Awaiting Final Letter''
      else if truthy_date (qc_reviewer_signoff_date self) then ''Awaiting FWS Review''
      else if truthy_date (analyst_signoff_date self) then ''Awaiting QC''
      else ''Received'')"

text \<open>The properties \<open>case_number = property(_get_id)\<close> and \<open>status = property(_get_status)\<close>.\<close>

definition case_number :: "Case \<Rightarrow> string" where
  "case_number self = get_id self"

definition status :: "Case \<Rightarrow> string" where
  "status self = get_status self"

text \<open>\<open>Case.__str__\<close>: \<open>return self.case_number\<close>.\<close>

definition Case_str :: "Case \<Rightarrow> string" where
  "Case_str self = case_number self"

text \<open>A case just received: no milestone date, no reviewer, no tag.\<close>

definition received_case :: Case where
  "received_case =
     \<lparr> id_pk = Some 17, created_date = Some (Date 2016 4 1), created_by = None,
       modified_date = Some (Date 2016 4 1), modified_by = None,
       case_hash = ''a1b2c3'', request_date = Date 2016 4 1, requester = 3, property = 4,
       cbrs_unit = None, map_number = None, cbrs_map_date = None, determination = None,
       prohibition_date = None, distance = None, fws_fo_received_date = None,
       fws_hq_received_date = None, final_letter_date = None, close_date = None,
       final_letter_recipient = '''', analyst = None, analyst_signoff_date = None,
       qc_reviewer = None, qc_reviewer_signoff_date = None, fws_reviewer = None,
       fws_reviewer_signoff_date = None, priority = False, tags = [] \<rparr>"

subsection \<open>Column defaults and the creation of a \<open>Case\<close>\<close>

text \<open>
  A Django column default is either a value, fixed when the class body runs (when the
  module is imported), or a callable, which Django calls each time an instance is
  created without that column. \<open>get_default\<close> is given the clock reading at creation.
\<close>

datatype 'a field_default = Fixed 'a | Callable "datetime \<Rightarrow> 'a"

fun get_default :: "'a field_default \<Rightarrow> datetime \<Rightarrow> 'a" where
  "get_default (Fixed v) now = v"
| "get_default (Callable f) now = f now"

text \<open>
  \<open>HistoryModel.created_date = models.DateField(default=datetime.now, ...)\<close>: the function
  \<open>datetime.now\<close> itself is the default; the date column keeps the date of its result.
\<close>

definition created_date_default :: "date option field_default" where
  "created_date_default = Callable (\<lambda>now. Some (datetime_date now))"

text \<open>
  \<open>Case.request_date = models.DateField(default=datetime.now().date())\<close>: the call
  \<open>datetime.now().date()\<close> is an argument of the column's constructor, evaluated when the
  class body runs. \<open>import_now\<close> is the clock reading at that moment.
\<close>

definition request_date_default :: "datetime \<Rightarrow> date field_default" where
  "request_date_default import_now = Fixed (datetime_date import_now)"

text \<open>
  Migration \<open>0009_auto_20160408_0902\<close>:
  \<open>field=models.DateField(default=datetime.date(2016, 4, 8))\<close>.
\<close>

definition migration_0009_request_date_default :: "date field_default" where
  "migration_0009_request_date_default = Fixed (Date 2016 4 8)"

text \<open>
  \<open>Case(requester=r, property=p)\<close>, run at clock reading \<open>now\<close> by a process that imported
  the models at \<open>import_now\<close>: every column not given takes its default (\<open>None\<close> for a
  nullable column without one, the empty string for a text column).
\<close>

definition Case_init :: "datetime \<Rightarrow> datetime \<Rightarrow> int \<Rightarrow> int \<Rightarrow> Case" where
  "Case_init import_now now r p =
     \<lparr> id_pk = None, created_date = get_default created_date_default now, created_by = None,
       modified_date = None, modified_by = None,
       case_hash = [], request_date = get_default (request_date_default import_now) now,
       requester = r, property = p,
       cbrs_unit = None, map_number = None, cbrs_map_date = None, determination = None,
       prohibition_date = None, distance = None, fws_fo_received_date = None,
       fws_hq_received_date = None, final_letter_date = None, close_date = None,
       final_letter_recipient = [], analyst = None, analyst_signoff_date = None,
       qc_reviewer = None, qc_reviewer_signoff_date = None, fws_reviewer = None,
       fws_reviewer_signoff_date = None, priority = False, tags = [] \<rparr>"

subsection \<open>\<open>CaseFile\<close>\<close>

text \<open>
  \<open>file_field\<close> is the column \<open>file\<close>: the stored path of the attachment, the string
  \<open>str(self.file)\<close> gives. \<open>case_fk\<close> is the column \<open>case\<close> (both names are keywords
  of Isabelle), \<open>uploader_id\<close> the key of the \<open>uploader\<close> column.
\<close>

record CaseFile = HistoryModel +
  file_field :: string
  case_fk :: Case
  uploader_id :: "int option"
  uploaded_date :: "date option"

datatype py_error = IndexError

text \<open>
  \<open>s.split(sep)\<close> for a one-character separator: the pieces between the occurrences of
  \<open>sep\<close>, empty pieces included. \<open>cur\<close> is the piece being read.
\<close>

fun split_acc :: "char \<Rightarrow> string \<Rightarrow> string \<Rightarrow> string list" where
  "split_acc sep cur [] = [cur]"
| "split_acc sep cur (c # cs) =
     (if c = sep then cur # split_acc sep [] cs else split_acc sep (cur @ [c]) cs)"

definition str_split :: "string \<Rightarrow> char \<Rightarrow> string list" where
  "str_split s sep = split_acc sep [] s"

text \<open>
  \<open>xs[i]\<close>: a negative index counts from the end, and an index out of range raises
  \<open>IndexError\<close>.
\<close>

definition list_index :: "'a list \<Rightarrow> int \<Rightarrow> py_error + 'a" where
  "list_index xs i =
     (if 0 \<le> i \<and> i < int (length xs) then Inr (xs ! nat i)
      else if i < 0 \<and> - i \<le> int (length xs) then Inr (xs ! nat (int (length xs) + i))
      else Inl IndexError)"

text \<open>
  \<open>CaseFile._get_filename\<close>: \<open>return '%s' % str(self.file).split('/')[-1]\<close>
  (\<open>'%s' %\<close> leaves a string as it is).
\<close>

definition get_filename :: "CaseFile \<Rightarrow> py_error + string" where
  "get_filename self = list_index (str_split (file_field self) CHR ''/'') (- 1)"

text \<open>\<open>name = property(_get_filename)\<close>, and \<open>CaseFile.__str__\<close>: \<open>return str(self.name)\<close>.\<close>

definition name :: "CaseFile \<Rightarrow> py_error + string" where
  "name self = get_filename self"

definition CaseFile_str :: "CaseFile \<Rightarrow> py_error + string" where
  "CaseFile_str self = name self"

text \<open>
  \<open>CaseFile.casefile_location(instance, filename)\<close>. \<open>'{0}'.format(instance.case)\<close> is
  \<open>str(instance.case)\<close>, that is \<open>Case.__str__\<close>.
\<close>

definition casefile_location :: "CaseFile \<Rightarrow> string \<Rightarrow> string" where
  "casefile_location instance filename =
     (if \<not> truthy_int (uploader_id instance)
        then ''casefiles/'' @ Case_str (case_fk instance) @ ''/requester/'' @ filename
      else ''casefiles/'' @ Case_str (case_fk instance) @ ''/'' @ filename)"

text \<open>
  What "the substring after the last separator" means: the longest suffix of the string
  in which the separator does not occur.
\<close>

definition substring_after_last :: "char \<Rightarrow> string \<Rightarrow> string" where
  "substring_after_last sep s = rev (takeWhile (\<lambda>c. c \<noteq> sep) (rev s))"

text \<open>An attachment of case 17 with the stored path \<open>p\<close>, uploaded by \<open>u\<close>.\<close>

definition attachment :: "string \<Rightarrow> int option \<Rightarrow> CaseFile" where
  "attachment p u =
     \<lparr> id_pk = Some 40, created_date = Some (Date 2016 4 2), created_by = u,
       modified_date = Some (Date 2016 4 2), modified_by = u,
       file_field = p, case_fk = received_case, uploader_id = u,
       uploaded_date = Some (Date 2016 4 2) \<rparr>"

section \<open>The access check of \<open>cbraservices/permissions.py\<close>\<close>

text \<open>
  The user table of \<open>django.contrib.auth\<close> is a list of rows. \<open>User.objects.get\<close> raises
  \<open>DoesNotExist\<close> (a subclass of \<open>ObjectDoesNotExist\<close>) when no row matches and
  \<open>MultipleObjectsReturned\<close> when several do.
\<close>

record User =
  username :: string
  first_name :: string
  last_name :: string
  email :: string
  is_staff :: bool
  is_active :: bool
  is_superuser :: bool

datatype orm_error = DoesNotExist | MultipleObjectsReturned

definition objects_get :: "User list \<Rightarrow> string \<Rightarrow> orm_error + User" where
  "objects_get table n =
     (case filter (\<lambda>u. username u = n) table of
        [] \<Rightarrow> Inl DoesNotExist
      | [u] \<Rightarrow> Inr u
      | _ \<Rightarrow> Inl MultipleObjectsReturned)"

text \<open>
  The request carries the acting identity; the lookup compares its string form (the
  user name) with the \<open>username\<close> column.
\<close>

record request =
  user :: string

text \<open>
  \<open>IsStaff.has_permission(self, request, view)\<close>; \<open>self\<close> and \<open>view\<close> are not read. Only
  \<open>ObjectDoesNotExist\<close> is caught: any other error of the lookup propagates.
\<close>

definition has_permission :: "User list \<Rightarrow> request \<Rightarrow> orm_error + bool" where
  "has_permission table req =
     (case objects_get table (user req) of
        Inr u \<Rightarrow> Inr (is_staff u)
      | Inl DoesNotExist \<Rightarrow> Inr False
      | Inl e \<Rightarrow> Inl e)"

definition mk_user :: "string \<Rightarrow> bool \<Rightarrow> User" where
  "mk_user n s =
     \<lparr> username = n, first_name = [], last_name = [], email = [], is_staff = s,
       is_active = True, is_superuser = False \<rparr>"

text \<open>A user table: alice is staff, bob is not, and nobody else has a row.\<close>

definition user_table :: "User list" where
  "user_table = [mk_user ''alice'' True, mk_user ''bob'' False]"

section \<open>Case status derivation\<close>

text \<open>
  C1.A case whose \<open>close_date\<close> is set has status "Closed with no Final Letter" when
  its \<open>final_letter_date\<close> is unset and "Final" when it is set, whatever the three
  signoff dates are.
\<close>

theorem closed_case_status:
  "close_date c = Some d \<Longrightarrow>
     (final_letter_date c = None \<longrightarrow> status c = ''Closed with no Final Letter'') \<and>
     (\<forall>l. final_letter_date c = Some l \<longrightarrow> status c = ''Final'')"
  by (simp add: status_def get_status_def)

theorem closed_case_status_witness:
  "close_date (received_case\<lparr>close_date := Some (Date 2016 5 1),
       analyst_signoff_date := Some (Date 2016 4 2),
       qc_reviewer_signoff_date := Some (Date 2016 4 3),
       fws_reviewer_signoff_date := Some (Date 2016 4 4)\<rparr>) = Some (Date 2016 5 1) \<and>
   status (received_case\<lparr>close_date := Some (Date 2016 5 1),
       analyst_signoff_date := Some (Date 2016 4 2),
       qc_reviewer_signoff_date := Some (Date 2016 4 3),
       fws_reviewer_signoff_date := Some (Date 2016 4 4)\<rparr>) = ''Closed with no Final Letter'' \<and>
   status (received_case\<lparr>close_date := Some (Date 2016 5 1),
       final_letter_date := Some (Date 2016 4 20)\<rparr>) = ''Final''"
  using closed_case_status [of "received_case\<lparr>close_date := Some (Date 2016 5 1),
       analyst_signoff_date := Some (Date 2016 4 2),
       qc_reviewer_signoff_date := Some (Date 2016 4 3),
       fws_reviewer_signoff_date := Some (Date 2016 4 4)\<rparr>" "Date 2016 5 1"]
    closed_case_status [of "received_case\<lparr>close_date := Some (Date 2016 5 1),
       final_letter_date := Some (Date 2016 4 20)\<rparr>" "Date 2016 5 1"]
  by (simp add: received_case_def)

text \<open>
  C2. With \<open>close_date\<close> unset the signoff dates decide, the latest stage first: the FWS
  reviewer's signoff gives "Awaiting Final Letter"; without it the QC reviewer's signoff
  gives "Awaiting FWS Review"; without both the analyst's signoff gives "Awaiting QC".
\<close>

theorem open_case_signoff_precedence:
  "close_date c = None \<Longrightarrow>
     (\<forall>d. fws_reviewer_signoff_date c = Some d \<longrightarrow> status c = ''Awaiting Final Letter'') \<and>
     (\<forall>d. fws_reviewer_signoff_date c = None \<and> qc_reviewer_signoff_date c = Some d
          \<longrightarrow> status c = ''Awaiting FWS Review'') \<and>
     (\<forall>d. fws_reviewer_signoff_date c = None \<and> qc_reviewer_signoff_date c = None \<and>
          analyst_signoff_date c = Some d \<longrightarrow> status c = ''Awaiting QC'')"
  by (simp add: status_def get_status_def)

theorem open_case_signoff_precedence_witness:
  "close_date (received_case\<lparr>analyst_signoff_date := Some (Date 2016 4 2),
       qc_reviewer_signoff_date := Some (Date 2016 4 3),
       fws_reviewer_signoff_date := Some (Date 2016 4 4)\<rparr>) = None \<and>
   status (received_case\<lparr>analyst_signoff_date := Some (Date 2016 4 2),
       qc_reviewer_signoff_date := Some (Date 2016 4 3),
       fws_reviewer_signoff_date := Some (Date 2016 4 4)\<rparr>) = ''Awaiting Final Letter'' \<and>
   status (received_case\<lparr>analyst_signoff_date := Some (Date 2016 4 2),
       qc_reviewer_signoff_date := Some (Date 2016 4 3)\<rparr>) = ''Awaiting FWS Review'' \<and>
   status (received_case\<lparr>analyst_signoff_date := Some (Date 2016 4 1)\<rparr>) = ''Awaiting QC''"
  using open_case_signoff_precedence [of "received_case\<lparr>analyst_signoff_date := Some (Date 2016 4 2),
       qc_reviewer_signoff_date := Some (Date 2016 4 3),
       fws_reviewer_signoff_date := Some (Date 2016 4 4)\<rparr>"]
    open_case_signoff_precedence [of "received_case\<lparr>analyst_signoff_date := Some (Date 2016 4 2),
       qc_reviewer_signoff_date := Some (Date 2016 4 3)\<rparr>"]
    open_case_signoff_precedence [of "received_case\<lparr>analyst_signoff_date := Some (Date 2016 4 1)\<rparr>"]
  by (simp add: received_case_def)

text \<open>
  C4. Status derivation is total. The source function has no \<open>raise\<close> and reads only
  attributes every \<open>Case\<close> has, so its embedding returns a string and not an error sum:
  every case, whatever its five dates, has a (non-empty) status, and with none of the
  five dates set the status is "Received".
\<close>

theorem status_total_default_received:
  "(\<exists>s. status c = s \<and> s \<noteq> []) \<and>
   (close_date c = None \<and> final_letter_date c = None \<and> fws_reviewer_signoff_date c = None \<and>
    qc_reviewer_signoff_date c = None \<and> analyst_signoff_date c = None
      \<longrightarrow> status c = ''Received'')"
  by (simp add: status_def get_status_def)

theorem status_total_default_received_witness:
  "close_date received_case = None \<and> final_letter_date received_case = None \<and>
   fws_reviewer_signoff_date received_case = None \<and>
   qc_reviewer_signoff_date received_case = None \<and>
   analyst_signoff_date received_case = None \<and> status received_case = ''Received''"
  using status_total_default_received [of received_case]
  by (simp add: received_case_def)

text \<open>
  C5. The status is a function of the five dates \<open>close_date\<close>, \<open>final_letter_date\<close>,
  \<open>fws_reviewer_signoff_date\<close>, \<open>qc_reviewer_signoff_date\<close> and \<open>analyst_signoff_date\<close>
  alone: two cases that agree on them have the same status, whatever their other
  fields are.
\<close>

theorem status_depends_on_five_dates_only:
  "close_date a = close_date b \<Longrightarrow>
   final_letter_date a = final_letter_date b \<Longrightarrow>
   fws_reviewer_signoff_date a = fws_reviewer_signoff_date b \<Longrightarrow>
   qc_reviewer_signoff_date a = qc_reviewer_signoff_date b \<Longrightarrow>
   analyst_signoff_date a = analyst_signoff_date b \<Longrightarrow>
   status a = status b"
  by (simp add: status_def get_status_def)

theorem status_depends_on_five_dates_only_witness:
  "status (received_case\<lparr>qc_reviewer_signoff_date := Some (Date 2016 4 3)\<rparr>) =
   status (received_case\<lparr>id_pk := Some 99, created_by := Some 2, case_hash := ''zz'',
       request_date := Date 2015 1 1, cbrs_map_date := Some (Date 2014 6 1),
       fws_hq_received_date := Some (Date 2016 4 2), analyst := Some 5, qc_reviewer := Some 6,
       fws_reviewer := Some 7, qc_reviewer_signoff_date := Some (Date 2016 4 3),
       priority := True, tags := [1, 2]\<rparr>)"
  by (rule status_depends_on_five_dates_only) (simp_all add: received_case_def)

text \<open>
  Each of the five dates is read: changing one of them alone can change the status.
\<close>

lemma status_reads_each_of_the_five_dates:
  "status (received_case\<lparr>close_date := Some d\<rparr>) \<noteq> status received_case"
  "status (received_case\<lparr>close_date := Some d, final_letter_date := Some d\<rparr>)
     \<noteq> status (received_case\<lparr>close_date := Some d\<rparr>)"
  "status (received_case\<lparr>fws_reviewer_signoff_date := Some d\<rparr>) \<noteq> status received_case"
  "status (received_case\<lparr>qc_reviewer_signoff_date := Some d\<rparr>) \<noteq> status received_case"
  "status (received_case\<lparr>analyst_signoff_date := Some d\<rparr>) \<noteq> status received_case"
  by (simp_all add: status_def get_status_def received_case_def)

text \<open>
  C6. The status accessor returns one of six strings and nothing else.
\<close>

theorem status_one_of_six_labels:
  "status c \<in> {''Closed with no Final Letter'', ''Final'', ''Awaiting Final Letter'',
                ''Awaiting FWS Review'', ''Awaiting QC'', ''Received''}"
  by (simp add: status_def get_status_def)

section \<open>Access control\<close>

text \<open>
  The \<open>username\<close> column of the user table is unique, so a lookup by name finds no row
  or exactly one.
\<close>

lemma filter_username_distinct:
  "distinct (map username table) \<Longrightarrow>
     filter (\<lambda>u. username u = n) table = [] \<or> (\<exists>u. filter (\<lambda>u. username u = n) table = [u])"
proof (induction table)
  case Nil
  then show ?case by simp
next
  case (Cons a table)
  show ?case
  proof (cases "username a = n")
    case True
    with Cons.prems have "\<forall>u\<in>set table. username u \<noteq> n" by (auto simp: image_iff)
    then have "filter (\<lambda>u. username u = n) table = []" by (simp add: filter_empty_conv)
    with True show ?thesis by simp
  next
    case False
    with Cons show ?thesis by simp
  qed
qed

lemma objects_get_cases:
  assumes "distinct (map username table)"
  shows "(objects_get table n = Inl DoesNotExist \<and> (\<forall>u\<in>set table. username u \<noteq> n)) \<or>
         (\<exists>u. objects_get table n = Inr u \<and> u \<in> set table \<and> username u = n \<and>
              (\<forall>v\<in>set table. username v = n \<longrightarrow> v = u))"
proof -
  from filter_username_distinct [OF assms, of n]
  show ?thesis
  proof
    assume e: "filter (\<lambda>u. username u = n) table = []"
    then have "\<forall>u\<in>set table. username u \<noteq> n" by (simp add: filter_empty_conv)
    with e show ?thesis by (simp add: objects_get_def)
  next
    assume "\<exists>u. filter (\<lambda>u. username u = n) table = [u]"
    then obtain u where f: "filter (\<lambda>u. username u = n) table = [u]" ..
    then have s: "set (filter (\<lambda>u. username u = n) table) = {u}" by simp
    then have "u \<in> set table \<and> username u = n" by auto
    moreover from s have "\<forall>v\<in>set table. username v = n \<longrightarrow> v = u" by auto
    ultimately show ?thesis using f by (simp add: objects_get_def)
  qed
qed


text \<open>
  C3. The access check permits exactly when the user table has a row for the acting
  identity and that row is marked staff. When no row matches, the lookup's
  \<open>DoesNotExist\<close> is caught and the check returns \<open>False\<close>: a normal result, not an error.
  The user table is one the database can hold: no two rows share a \<open>username\<close>.
\<close>

theorem has_permission_iff_staff_user_exists:
  assumes "distinct (map username table)"
  shows "has_permission table req = Inr (\<exists>u\<in>set table. username u = user req \<and> is_staff u) \<and>
     ((\<forall>u\<in>set table. username u \<noteq> user req) \<longrightarrow> has_permission table req = Inr False)"
proof -
  from objects_get_cases [OF assms, of "user req"]
  show ?thesis
  proof
    assume "objects_get table (user req) = Inl DoesNotExist \<and> (\<forall>u\<in>set table. username u \<noteq> user req)"
    then show ?thesis by (simp add: has_permission_def)
  next
    assume "\<exists>u. objects_get table (user req) = Inr u \<and> u \<in> set table \<and> username u = user req \<and>
              (\<forall>v\<in>set table. username v = user req \<longrightarrow> v = u)"
    then obtain u where g: "objects_get table (user req) = Inr u" and m: "u \<in> set table"
      and n: "username u = user req" and q: "\<forall>v\<in>set table. username v = user req \<longrightarrow> v = u"
      by blast
    from m n q have "(\<exists>v\<in>set table. username v = user req \<and> is_staff v) = is_staff u" by blast
    moreover from m n have "\<not> (\<forall>u\<in>set table. username u \<noteq> user req)" by blast
    moreover from g have "has_permission table req = Inr (is_staff u)"
      by (simp add: has_permission_def)
    ultimately have h: "has_permission table req = Inr (is_staff u)"
      and e: "(\<exists>v\<in>set table. username v = user req \<and> is_staff v) = is_staff u"
      and ne: "\<not> (\<forall>u\<in>set table. username u \<noteq> user req)"
      by blast+
    from h e have c1: "has_permission table req =
        Inr (\<exists>u\<in>set table. username u = user req \<and> is_staff u)"
      by (simp only:)
    from ne have c2: "(\<forall>u\<in>set table. username u \<noteq> user req) \<longrightarrow>
        has_permission table req = Inr False"
      by blast
    from c1 c2 show ?thesis by (rule conjI)
  qed
qed

theorem has_permission_iff_staff_user_exists_witness: "distinct (map username user_table) \<and>
   has_permission user_table \<lparr>user = ''alice''\<rparr> = Inr True \<and>
   has_permission user_table \<lparr>user = ''bob''\<rparr> = Inr False \<and>
   has_permission user_table \<lparr>user = ''carol''\<rparr> = Inr False"
proof -
  have d: "distinct (map username user_table)"
    by (simp add: user_table_def mk_user_def)
  have a: "has_permission user_table \<lparr>user = ''alice''\<rparr> = Inr True"
    using has_permission_iff_staff_user_exists [OF d, of "\<lparr>user = ''alice''\<rparr>"]
    by (simp add: user_table_def mk_user_def)
  have b: "has_permission user_table \<lparr>user = ''bob''\<rparr> = Inr False"
    using has_permission_iff_staff_user_exists [OF d, of "\<lparr>user = ''bob''\<rparr>"]
    by (simp add: user_table_def mk_user_def)
  have c: "has_permission user_table \<lparr>user = ''carol''\<rparr> = Inr False"
    using has_permission_iff_staff_user_exists [OF d, of "\<lparr>user = ''carol''\<rparr>"]
    by (simp add: user_table_def mk_user_def)
  from d a b c show ?thesis by (intro conjI)
qed

text \<open>
  A user table that breaks the uniqueness of \<open>username\<close> makes the lookup raise
  \<open>MultipleObjectsReturned\<close>, which the check does not catch.
\<close>

lemma has_permission_duplicate_usernames:
  "has_permission [mk_user ''alice'' True, mk_user ''alice'' False] \<lparr>user = ''alice''\<rparr>
     = Inl MultipleObjectsReturned"
  by (simp add: has_permission_def objects_get_def mk_user_def)

section \<open>Decimal numerals\<close>

text \<open>
  The characters of \<open>str_nat\<close> are the ten digits; none of them is the path separator or
  the minus sign, and the numeral determines the number.
\<close>

lemma of_char_digit_char: "d < 10 \<Longrightarrow> of_char (digit_char d) = 48 + d"
  by (simp add: digit_char_def)

lemma digit_char_not_slash: "d < 10 \<Longrightarrow> digit_char d \<noteq> CHR ''/''"
proof
  assume d: "d < 10" and e: "digit_char d = CHR ''/''"
  from e have "(of_char (digit_char d) :: nat) = of_char CHR ''/''" by simp
  with d show False by (simp add: of_char_digit_char)
qed

lemma digit_char_not_minus: "d < 10 \<Longrightarrow> digit_char d \<noteq> CHR ''-''"
proof
  assume d: "d < 10" and e: "digit_char d = CHR ''-''"
  from e have "(of_char (digit_char d) :: nat) = of_char CHR ''-''" by simp
  with d show False by (simp add: of_char_digit_char)
qed

lemma digit_char_inj: "a < 10 \<Longrightarrow> b < 10 \<Longrightarrow> digit_char a = digit_char b \<Longrightarrow> a = b"
proof -
  assume a: "a < 10" and b: "b < 10" and e: "digit_char a = digit_char b"
  from e have "(of_char (digit_char a) :: nat) = of_char (digit_char b)" by simp
  with a b show "a = b" by (simp add: of_char_digit_char)
qed

lemma str_nat_chars: "c \<in> set (str_nat n) \<Longrightarrow> \<exists>d<10. c = digit_char d"
proof (induction n arbitrary: c rule: str_nat.induct)
  case (1 n)
  show ?case
  proof (cases "n < 10")
    case True
    with "1.prems" show ?thesis by (auto simp: str_nat.simps [of n])
  next
    case False
    with "1.prems" have "c \<in> set (str_nat (n div 10)) \<or> c = digit_char (n mod 10)"
      by (auto simp: str_nat.simps [of n])
    then show ?thesis
    proof
      assume "c \<in> set (str_nat (n div 10))"
      with "1.IH" [OF False] show ?thesis by blast
    next
      assume "c = digit_char (n mod 10)"
      moreover have "n mod 10 < 10" by simp
      ultimately show ?thesis by blast
    qed
  qed
qed

lemma slash_notin_str_nat: "CHR ''/'' \<notin> set (str_nat n)"
  using str_nat_chars [of "CHR ''/''" n] digit_char_not_slash by metis

lemma slash_notin_str_int: "CHR ''/'' \<notin> set (str_int i)"
  by (simp add: str_int_def slash_notin_str_nat)

lemma slash_notin_percent_s: "CHR ''/'' \<notin> set (percent_s x)"
  by (cases x) (simp_all add: slash_notin_str_int)

lemma str_nat_nonempty: "str_nat n \<noteq> []"
  by (simp add: str_nat.simps [of n])

lemma str_nat_inj: "str_nat m = str_nat n \<Longrightarrow> m = n"
proof (induction m arbitrary: n rule: str_nat.induct)
  case (1 m)
  show ?case
  proof (cases "m < 10")
    case m: True
    show ?thesis
    proof (cases "n < 10")
      case True
      with m "1.prems" show ?thesis
        by (simp add: str_nat.simps [of m] str_nat.simps [of n] digit_char_inj)
    next
      case False
      with m "1.prems" have "[digit_char m] = str_nat (n div 10) @ [digit_char (n mod 10)]"
        by (simp add: str_nat.simps [of m] str_nat.simps [of n])
      then have "str_nat (n div 10) = []" by simp
      with str_nat_nonempty show ?thesis by blast
    qed
  next
    case m: False
    show ?thesis
    proof (cases "n < 10")
      case True
      with m "1.prems" have "str_nat (m div 10) @ [digit_char (m mod 10)] = [digit_char n]"
        by (simp add: str_nat.simps [of m] str_nat.simps [of n])
      then have "str_nat (m div 10) = []" by simp
      with str_nat_nonempty show ?thesis by blast
    next
      case False
      with m "1.prems" have "str_nat (m div 10) @ [digit_char (m mod 10)]
          = str_nat (n div 10) @ [digit_char (n mod 10)]"
        by (simp add: str_nat.simps [of m] str_nat.simps [of n])
      then have a: "str_nat (m div 10) = str_nat (n div 10)"
        and b: "digit_char (m mod 10) = digit_char (n mod 10)" by simp_all
      from "1.IH" [OF m a] have "m div 10 = n div 10" .
      moreover from b have "m mod 10 = n mod 10" by (simp add: digit_char_inj)
      ultimately show ?thesis by (metis div_mult_mod_eq)
    qed
  qed
qed

lemma hd_str_nat_not_minus: "hd (str_nat n) \<noteq> CHR ''-''"
proof -
  from str_nat_nonempty have "hd (str_nat n) \<in> set (str_nat n)" by simp
  with str_nat_chars obtain d where "d < 10" "hd (str_nat n) = digit_char d" by blast
  with digit_char_not_minus show ?thesis by simp
qed

lemma str_int_inj: "str_int i = str_int j \<Longrightarrow> i = j"
proof -
  assume e: "str_int i = str_int j"
  show "i = j"
  proof (cases "i < 0")
    case i: True
    show ?thesis
    proof (cases "j < 0")
      case True
      with i e have "str_nat (nat (- i)) = str_nat (nat (- j))" by (simp add: str_int_def)
      then have "nat (- i) = nat (- j)" by (rule str_nat_inj)
      with i True show ?thesis by simp
    next
      case False
      with i e have "CHR ''-'' # str_nat (nat (- i)) = str_nat (nat j)" by (simp add: str_int_def)
      then have "hd (str_nat (nat j)) = CHR ''-''" by (metis list.sel(1))
      with hd_str_nat_not_minus show ?thesis by blast
    qed
  next
    case i: False
    show ?thesis
    proof (cases "j < 0")
      case True
      with i e have "str_nat (nat i) = CHR ''-'' # str_nat (nat (- j))" by (simp add: str_int_def)
      then have "hd (str_nat (nat i)) = CHR ''-''" by (metis list.sel(1))
      with hd_str_nat_not_minus show ?thesis by blast
    next
      case False
      with i e have "str_nat (nat i) = str_nat (nat j)" by (simp add: str_int_def)
      then have "nat i = nat j" by (rule str_nat_inj)
      with i False show ?thesis by simp
    qed
  qed
qed

lemma str_int_examples:
  "str_int 17 = ''17''" "str_int (- 305) = ''-305''" "str_int 0 = ''0''"
  by code_simp+

section \<open>The default of \<open>request_date\<close>\<close>

text \<open>
  Whatever the clock reads when a case is created, its \<open>request_date\<close> is the date at which
  the models were imported, while its \<open>created_date\<close>, whose default is a callable, is the
  date of creation.
\<close>

lemma request_date_default_ignores_creation_clock:
  "request_date (Case_init import_now now r p) = datetime_date import_now"
  by (simp add: Case_init_def request_date_default_def)

lemma created_date_default_reads_creation_clock:
  "created_date (Case_init import_now now r p) = Some (datetime_date now)"
  by (simp add: Case_init_def created_date_default_def)

text \<open>
  C7. A case created without an explicit \<open>request_date\<close> is claimed to take the date of
  its creation. In the code the default is the value of \<open>datetime.now().date()\<close> at the
  import of the module: a case created on 2016-04-09 by a process started on 2016-04-08
  has the request date 2016-04-08 (the date migration 0009 also freezes), not 2016-04-09,
  while its \<open>created_date\<close> is 2016-04-09.
\<close>

theorem request_date_default_fixed_at_import:
  "request_date (Case_init (Datetime 2016 4 8 9 2 0 0) (Datetime 2016 4 9 10 30 0 0) 3 4)
     = Date 2016 4 8 \<and>
   request_date (Case_init (Datetime 2016 4 8 9 2 0 0) (Datetime 2016 4 9 10 30 0 0) 3 4)
     \<noteq> datetime_date (Datetime 2016 4 9 10 30 0 0) \<and>
   created_date (Case_init (Datetime 2016 4 8 9 2 0 0) (Datetime 2016 4 9 10 30 0 0) 3 4)
     = Some (Date 2016 4 9) \<and>
   get_default migration_0009_request_date_default (Datetime 2016 4 9 10 30 0 0) = Date 2016 4 8"
  by (simp add: Case_init_def request_date_default_def created_date_default_def
      migration_0009_request_date_default_def)

section \<open>Case number\<close>

text \<open>
  C9. The case number is the string form of the case's \<open>id\<close>, and so is the string form
  of the case: for a saved case with key \<open>i\<close> both are the decimal numeral of \<open>i\<close>.
  Nothing but the \<open>id\<close> is read.
\<close>

theorem case_number_is_string_of_id:
  "case_number c = percent_s (id_pk c) \<and> Case_str c = percent_s (id_pk c) \<and>
   (\<forall>i. id_pk c = Some i \<longrightarrow> case_number c = str_int i \<and> Case_str c = str_int i)"
  by (simp add: Case_str_def case_number_def get_id_def)

theorem case_number_is_string_of_id_witness:
  "id_pk received_case = Some 17 \<and> case_number received_case = ''17'' \<and>
   Case_str received_case = ''17''"
proof -
  have i: "id_pk received_case = Some 17" by (simp add: received_case_def)
  have s: "str_int 17 = ''17''" by code_simp
  from case_number_is_string_of_id [of received_case] i s show ?thesis by simp
qed

text \<open>Two saved cases have the same case number exactly when they have the same key.\<close>

lemma case_number_determines_id:
  "id_pk a = Some i \<Longrightarrow> id_pk b = Some j \<Longrightarrow> (case_number a = case_number b) = (i = j)"
  by (auto simp: case_number_def get_id_def dest: str_int_inj)

section \<open>Attachments\<close>

subsection \<open>Splitting at a separator\<close>

lemma split_acc_nonempty: "split_acc sep cur s \<noteq> []"
  by (induction s arbitrary: cur) simp_all

lemma split_acc_no_sep: "sep \<notin> set s \<Longrightarrow> split_acc sep cur s = [cur @ s]"
  by (induction s arbitrary: cur) auto

lemma split_acc_append_sep:
  "sep \<notin> set a \<Longrightarrow> split_acc sep cur (a @ sep # b) = (cur @ a) # split_acc sep [] b"
  by (induction a arbitrary: cur) auto

lemma substring_after_last_no_sep:
  "sep \<notin> set s \<Longrightarrow> substring_after_last sep s = s"
proof -
  assume n: "sep \<notin> set s"
  then have "takeWhile (\<lambda>c. c \<noteq> sep) (rev s) = rev s"
    by (auto simp: takeWhile_eq_all_conv)
  then show ?thesis by (simp only: substring_after_last_def rev_rev_ident)
qed

lemma substring_after_last_Cons:
  "substring_after_last sep (c # cs) =
     (if sep \<in> set cs then substring_after_last sep cs
      else if c = sep then cs else c # cs)"
proof (cases "sep \<in> set cs")
  case True
  then have "sep \<in> set (rev cs)" by simp
  then have "takeWhile (\<lambda>c. c \<noteq> sep) (rev cs @ [c]) = takeWhile (\<lambda>c. c \<noteq> sep) (rev cs)"
    by (rule takeWhile_append1) simp
  with True show ?thesis by (simp add: substring_after_last_def)
next
  case False
  then have "takeWhile (\<lambda>c. c \<noteq> sep) (rev cs @ [c]) = rev cs @ takeWhile (\<lambda>c. c \<noteq> sep) [c]"
    by (intro takeWhile_append2) auto
  with False show ?thesis by (simp add: substring_after_last_def)
qed

lemma last_split_acc:
  "last (split_acc sep cur s) = (if sep \<in> set s then substring_after_last sep s else cur @ s)"
proof (induction s arbitrary: cur)
  case Nil
  then show ?case by simp
next
  case (Cons c cs)
  show ?case
  proof (cases "c = sep")
    case True
    then have "last (split_acc sep cur (c # cs)) = last (split_acc sep [] cs)"
      by (simp add: split_acc_nonempty)
    also have "\<dots> = (if sep \<in> set cs then substring_after_last sep cs else cs)"
      by (simp add: Cons.IH)
    finally show ?thesis using True by (simp add: substring_after_last_Cons)
  next
    case False
    then have "last (split_acc sep cur (c # cs)) = last (split_acc sep (cur @ [c]) cs)"
      by simp
    also have "\<dots> = (if sep \<in> set cs then substring_after_last sep cs else (cur @ [c]) @ cs)"
      by (rule Cons.IH)
    finally show ?thesis using False by (simp add: substring_after_last_Cons)
  qed
qed

lemma last_str_split: "last (str_split s sep) = substring_after_last sep s"
  by (simp add: str_split_def last_split_acc substring_after_last_no_sep)

lemma list_index_minus_one: "xs \<noteq> [] \<Longrightarrow> list_index xs (- 1) = Inr (last xs)"
proof -
  assume n: "xs \<noteq> []"
  then have l: "Suc 0 \<le> length xs" by (cases xs) simp_all
  then have "nat (int (length xs) + - 1) = length xs - 1" by arith
  with n show ?thesis by (simp add: list_index_def last_conv_nth l)
qed

lemma get_filename_eq:
  "get_filename cf = Inr (substring_after_last CHR ''/'' (file_field cf))"
  by (simp add: get_filename_def list_index_minus_one str_split_def split_acc_nonempty
      last_str_split [unfolded str_split_def])

lemma substring_after_last_suffix:
  "\<exists>pre. s = pre @ substring_after_last sep s \<and> (pre = [] \<or> last pre = sep)"
proof -
  let ?P = "\<lambda>c. c \<noteq> sep"
  let ?d = "dropWhile ?P (rev s)"
  have "rev (takeWhile ?P (rev s) @ ?d) = s"
    by (simp only: takeWhile_dropWhile_id rev_rev_ident)
  then have "rev ?d @ rev (takeWhile ?P (rev s)) = s"
    by (simp only: rev_append)
  then have s: "s = rev ?d @ substring_after_last sep s"
    by (simp only: substring_after_last_def)
  have "rev ?d = [] \<or> last (rev ?d) = sep"
  proof (cases "?d = []")
    case True
    then show ?thesis by simp
  next
    case False
    then have "\<not> ?P (hd ?d)" by (rule hd_dropWhile)
    with False show ?thesis by (simp add: last_rev)
  qed
  with s show ?thesis by blast
qed

lemma substring_after_last_no_sep_inside: "sep \<notin> set (substring_after_last sep s)"
proof
  assume "sep \<in> set (substring_after_last sep s)"
  then have "sep \<in> set (takeWhile (\<lambda>c. c \<noteq> sep) (rev s))"
    by (simp add: substring_after_last_def)
  then show False by (auto dest: set_takeWhileD)
qed

text \<open>
  C10. The name of an attachment is the part of its stored path after the last \<open>/\<close>:
  the suffix of the path that has no \<open>/\<close> in it and is preceded by a \<open>/\<close> or by nothing.
  The index \<open>[-1]\<close> never fails, since a split has at least one piece. When the path has
  no \<open>/\<close> the name is the whole path. \<open>CaseFile.__str__\<close> returns that name.
\<close>

theorem name_is_substring_after_last_slash:
  "name cf = Inr (substring_after_last CHR ''/'' (file_field cf)) \<and>
   CaseFile_str cf = name cf \<and>
   (\<exists>pre. file_field cf = pre @ substring_after_last CHR ''/'' (file_field cf) \<and>
      (pre = [] \<or> last pre = CHR ''/'')) \<and>
   CHR ''/'' \<notin> set (substring_after_last CHR ''/'' (file_field cf)) \<and>
   (CHR ''/'' \<notin> set (file_field cf) \<longrightarrow> name cf = Inr (file_field cf))"
proof (intro conjI)
  show "name cf = Inr (substring_after_last CHR ''/'' (file_field cf))"
    by (simp add: name_def get_filename_eq)
  show "CaseFile_str cf = name cf" by (simp add: CaseFile_str_def)
  show "\<exists>pre. file_field cf = pre @ substring_after_last CHR ''/'' (file_field cf) \<and>
      (pre = [] \<or> last pre = CHR ''/'')"
    by (rule substring_after_last_suffix)
  show "CHR ''/'' \<notin> set (substring_after_last CHR ''/'' (file_field cf))"
    by (rule substring_after_last_no_sep_inside)
  show "CHR ''/'' \<notin> set (file_field cf) \<longrightarrow> name cf = Inr (file_field cf)"
    by (simp add: name_def get_filename_eq substring_after_last_no_sep)
qed

theorem name_is_substring_after_last_slash_witness:
  "CHR ''/'' \<notin> set ''map.pdf'' \<and> name (attachment ''map.pdf'' None) = Inr ''map.pdf'' \<and>
   name (attachment ''casefiles/17/requester/map.pdf'' None) = Inr ''map.pdf'' \<and>
   CaseFile_str (attachment ''casefiles/17/requester/map.pdf'' None) = Inr ''map.pdf''"
proof -
  have n: "CHR ''/'' \<notin> set ''map.pdf''" by simp
  have f1: "file_field (attachment ''map.pdf'' None) = ''map.pdf''"
    by (simp add: attachment_def)
  have f2: "file_field (attachment ''casefiles/17/requester/map.pdf'' None)
      = ''casefiles/17/requester/map.pdf''"
    by (simp add: attachment_def)
  have s: "substring_after_last CHR ''/'' ''casefiles/17/requester/map.pdf'' = ''map.pdf''"
    by (simp add: substring_after_last_def)
  from name_is_substring_after_last_slash [of "attachment ''map.pdf'' None"] n f1
  have a: "name (attachment ''map.pdf'' None) = Inr ''map.pdf''"
    by (simp add: substring_after_last_def)
  from name_is_substring_after_last_slash [of "attachment ''casefiles/17/requester/map.pdf'' None"] f2 s
  have b: "name (attachment ''casefiles/17/requester/map.pdf'' None) = Inr ''map.pdf''"
    and c: "CaseFile_str (attachment ''casefiles/17/requester/map.pdf'' None) = Inr ''map.pdf''"
    by simp_all
  from n a b c show ?thesis by (intro conjI)
qed

subsection \<open>Storage location\<close>

lemma slash_notin_Case_str: "CHR ''/'' \<notin> set (Case_str c)"
  by (simp add: Case_str_def case_number_def get_id_def slash_notin_percent_s)

lemma str_split_requester_path:
  assumes "CHR ''/'' \<notin> set i" and "CHR ''/'' \<notin> set fn"
  shows "str_split (''casefiles/'' @ i @ ''/requester/'' @ fn) CHR ''/''
           = [''casefiles'', i, ''requester'', fn]"
proof -
  let ?r3 = "''requester'' @ CHR ''/'' # fn"
  let ?r2 = "i @ CHR ''/'' # ?r3"
  have e: "''casefiles/'' @ i @ ''/requester/'' @ fn = ''casefiles'' @ CHR ''/'' # ?r2"
    by simp
  have s1: "split_acc CHR ''/'' [] (''casefiles'' @ CHR ''/'' # ?r2)
      = ([] @ ''casefiles'') # split_acc CHR ''/'' [] ?r2"
    by (rule split_acc_append_sep) simp
  have s2: "split_acc CHR ''/'' [] ?r2 = ([] @ i) # split_acc CHR ''/'' [] ?r3"
    by (rule split_acc_append_sep) (rule assms)
  have s3: "split_acc CHR ''/'' [] ?r3 = ([] @ ''requester'') # split_acc CHR ''/'' [] fn"
    by (rule split_acc_append_sep) simp
  have s4: "split_acc CHR ''/'' [] fn = [[] @ fn]"
    by (rule split_acc_no_sep) (rule assms)
  show ?thesis
    by (simp only: str_split_def e s1 s2 s3 s4 append_Nil)
qed

lemma str_split_staff_path:
  assumes "CHR ''/'' \<notin> set i" and "CHR ''/'' \<notin> set fn"
  shows "str_split (''casefiles/'' @ i @ ''/'' @ fn) CHR ''/'' = [''casefiles'', i, fn]"
proof -
  let ?r2 = "i @ CHR ''/'' # fn"
  have e: "''casefiles/'' @ i @ ''/'' @ fn = ''casefiles'' @ CHR ''/'' # ?r2"
    by simp
  have s1: "split_acc CHR ''/'' [] (''casefiles'' @ CHR ''/'' # ?r2)
      = ([] @ ''casefiles'') # split_acc CHR ''/'' [] ?r2"
    by (rule split_acc_append_sep) simp
  have s2: "split_acc CHR ''/'' [] ?r2 = ([] @ i) # split_acc CHR ''/'' [] fn"
    by (rule split_acc_append_sep) (rule assms)
  have s4: "split_acc CHR ''/'' [] fn = [[] @ fn]"
    by (rule split_acc_no_sep) (rule assms)
  show ?thesis
    by (simp only: str_split_def e s1 s2 s4 append_Nil)
qed

text \<open>
  C8. The storage location of an attachment is \<open>casefiles/<case id>/requester/<filename>\<close>
  when the uploader is unset (an upload of the requester) and
  \<open>casefiles/<case id>/<filename>\<close> when the uploader is set (an upload of staff): the
  case identity is the second component of every location, and for a file name without
  \<open>/\<close> the component \<open>requester\<close> follows it exactly for the uploads of the requester.
  A set uploader is the key of a user row, which is not zero.
\<close>

theorem casefile_location_groups_by_case_and_uploader:
  "(\<exists>rest. casefile_location cf fn
       = ''casefiles/'' @ percent_s (id_pk (case_fk cf)) @ ''/'' @ rest) \<and>
   (uploader_id cf = None \<longrightarrow>
      casefile_location cf fn
        = ''casefiles/'' @ percent_s (id_pk (case_fk cf)) @ ''/requester/'' @ fn) \<and>
   (\<forall>u. uploader_id cf = Some u \<and> u \<noteq> 0 \<longrightarrow>
      casefile_location cf fn = ''casefiles/'' @ percent_s (id_pk (case_fk cf)) @ ''/'' @ fn) \<and>
   (CHR ''/'' \<notin> set fn \<and> uploader_id cf = None \<longrightarrow>
      str_split (casefile_location cf fn) CHR ''/''
        = [''casefiles'', percent_s (id_pk (case_fk cf)), ''requester'', fn]) \<and>
   (\<forall>u. CHR ''/'' \<notin> set fn \<and> uploader_id cf = Some u \<and> u \<noteq> 0 \<longrightarrow>
      str_split (casefile_location cf fn) CHR ''/''
        = [''casefiles'', percent_s (id_pk (case_fk cf)), fn])"
proof -
  let ?i = "percent_s (id_pk (case_fk cf))"
  have i: "Case_str (case_fk cf) = ?i"
    by (simp add: Case_str_def case_number_def get_id_def)
  have n: "CHR ''/'' \<notin> set ?i" by (rule slash_notin_percent_s)
  have r: "\<not> truthy_int (uploader_id cf) \<Longrightarrow>
      casefile_location cf fn = ''casefiles/'' @ ?i @ ''/requester/'' @ fn"
    by (simp add: casefile_location_def i)
  have s: "truthy_int (uploader_id cf) \<Longrightarrow>
      casefile_location cf fn = ''casefiles/'' @ ?i @ ''/'' @ fn"
    by (simp add: casefile_location_def i)
  have c1: "\<exists>rest. casefile_location cf fn = ''casefiles/'' @ ?i @ ''/'' @ rest"
  proof (cases "truthy_int (uploader_id cf)")
    case True
    with s show ?thesis by blast
  next
    case False
    with r have "casefile_location cf fn = ''casefiles/'' @ ?i @ ''/'' @ (''requester/'' @ fn)"
      by simp
    then show ?thesis by blast
  qed
  have c2: "uploader_id cf = None \<longrightarrow>
      casefile_location cf fn = ''casefiles/'' @ ?i @ ''/requester/'' @ fn"
    using r by simp
  have c3: "\<forall>u. uploader_id cf = Some u \<and> u \<noteq> 0 \<longrightarrow>
      casefile_location cf fn = ''casefiles/'' @ ?i @ ''/'' @ fn"
    using s by simp
  have c4: "CHR ''/'' \<notin> set fn \<and> uploader_id cf = None \<longrightarrow>
      str_split (casefile_location cf fn) CHR ''/'' = [''casefiles'', ?i, ''requester'', fn]"
  proof
    assume a: "CHR ''/'' \<notin> set fn \<and> uploader_id cf = None"
    then have l: "casefile_location cf fn = ''casefiles/'' @ ?i @ ''/requester/'' @ fn"
      using r by simp
    from a have f: "CHR ''/'' \<notin> set fn" by simp
    show "str_split (casefile_location cf fn) CHR ''/''
        = [''casefiles'', ?i, ''requester'', fn]"
      by (simp only: l str_split_requester_path [OF n f])
  qed
  have c5: "\<forall>u. CHR ''/'' \<notin> set fn \<and> uploader_id cf = Some u \<and> u \<noteq> 0 \<longrightarrow>
      str_split (casefile_location cf fn) CHR ''/'' = [''casefiles'', ?i, fn]"
  proof (intro allI impI)
    fix u
    assume a: "CHR ''/'' \<notin> set fn \<and> uploader_id cf = Some u \<and> u \<noteq> 0"
    then have l: "casefile_location cf fn = ''casefiles/'' @ ?i @ ''/'' @ fn"
      using s by simp
    from a have f: "CHR ''/'' \<notin> set fn" by simp
    show "str_split (casefile_location cf fn) CHR ''/'' = [''casefiles'', ?i, fn]"
      by (simp only: l str_split_staff_path [OF n f])
  qed
  from c1 c2 c3 c4 c5 show ?thesis by (intro conjI)
qed

theorem casefile_location_groups_by_case_and_uploader_witness:
  "uploader_id (attachment [] None) = None \<and>
   uploader_id (attachment [] (Some 5)) = Some 5 \<and> (5::int) \<noteq> 0 \<and>
   CHR ''/'' \<notin> set ''map.pdf'' \<and>
   casefile_location (attachment [] None) ''map.pdf'' = ''casefiles/17/requester/map.pdf'' \<and>
   casefile_location (attachment [] (Some 5)) ''map.pdf'' = ''casefiles/17/map.pdf'' \<and>
   str_split (casefile_location (attachment [] None) ''map.pdf'') CHR ''/''
     = [''casefiles'', ''17'', ''requester'', ''map.pdf''] \<and>
   str_split (casefile_location (attachment [] (Some 5)) ''map.pdf'') CHR ''/''
     = [''casefiles'', ''17'', ''map.pdf'']"
proof -
  have u1: "uploader_id (attachment [] None) = None" by (simp add: attachment_def)
  have u2: "uploader_id (attachment [] (Some 5)) = Some 5" by (simp add: attachment_def)
  have n: "CHR ''/'' \<notin> set ''map.pdf''" by simp
  have s: "str_int 17 = ''17''" by code_simp
  have i1: "percent_s (id_pk (case_fk (attachment [] None))) = ''17''"
    by (simp add: attachment_def received_case_def s)
  have i2: "percent_s (id_pk (case_fk (attachment [] (Some 5)))) = ''17''"
    by (simp add: attachment_def received_case_def s)
  from casefile_location_groups_by_case_and_uploader [of "attachment [] None" "''map.pdf''"] u1 n i1
  have a: "casefile_location (attachment [] None) ''map.pdf'' = ''casefiles/17/requester/map.pdf''"
    and b: "str_split (casefile_location (attachment [] None) ''map.pdf'') CHR ''/''
     = [''casefiles'', ''17'', ''requester'', ''map.pdf'']"
    by (simp_all add: str_split_def)
  from casefile_location_groups_by_case_and_uploader [of "attachment [] (Some 5)" "''map.pdf''"] u2 n i2
  have c: "casefile_location (attachment [] (Some 5)) ''map.pdf'' = ''casefiles/17/map.pdf''"
    and d: "str_split (casefile_location (attachment [] (Some 5)) ''map.pdf'') CHR ''/''
     = [''casefiles'', ''17'', ''map.pdf'']"
    by (simp_all add: str_split_def)
  from u1 u2 n a b c d show ?thesis by simp
qed

text \<open>
  The test \<open>not instance.uploader_id\<close> is Python truth: the key \<open>0\<close>, which no automatic
  primary key takes, would be filed with the uploads of the requester.
\<close>

lemma casefile_location_uploader_key_zero:
  "casefile_location (attachment [] (Some 0)) ''map.pdf'' = ''casefiles/17/requester/map.pdf''"
proof -
  have s: "str_int 17 = ''17''" by code_simp
  show ?thesis
    by (simp add: casefile_location_def attachment_def received_case_def Case_str_def
        case_number_def get_id_def s)
qed

end
